theory Spec2Isabelle
  imports Main
begin

text \<open>
  The \<open>Cookies\<close> class of StorageW: a codec between the flat string \<open>document.cookie\<close>
  and a sequence of entry objects, and the queries on such a sequence.  The repository
  holds two versions of the class.  The definitions below follow the later one (the one
  with \<open>firstIn\<close>, \<open>findIn\<close>, \<open>storeArray\<close>, \<open>storeAsContainer\<close> and the modes of
  \<open>unravel\<close>); a definition whose name starts with \<open>StorageW_\<close> follows the file
  StorageW.js where that file differs.
\<close>

section \<open>JavaScript strings\<close>

text \<open>
  A JavaScript string is modelled as a \<^typ>\<open>string\<close>; every \<^typ>\<open>char\<close> stands for one
  code unit in the range 0..255.  \<open>String.prototype.trim\<close> removes the ECMAScript
  white space and line terminator code units at both ends; in the modelled range these are
  TAB, LF, VT, FF, CR, SPACE and NBSP.
\<close>

definition isWhiteSpace :: "char \<Rightarrow> bool" where
  "isWhiteSpace c \<longleftrightarrow>
     c = CHR 0x09 \<or> c = CHR 0x0A \<or> c = CHR 0x0B \<or> c = CHR 0x0C \<or> c = CHR 0x0D \<or>
     c = CHR 0x20 \<or> c = CHR 0xA0"

definition trim :: "string \<Rightarrow> string" where
  "trim s = rev (dropWhile isWhiteSpace (rev (dropWhile isWhiteSpace s)))"

text \<open>\<open>s.split(c)\<close> for a one-character separator: never empty, \<open>''''.split(c) = ['''']\<close>.\<close>

fun str_split :: "char \<Rightarrow> string \<Rightarrow> string list" where
  "str_split c [] = [[]]"
| "str_split c (x # xs) =
     (if x = c then [] # str_split c xs
      else (x # hd (str_split c xs)) # tl (str_split c xs))"

text \<open>\<open>s.indexOf(c)\<close>: the position of the first occurrence, or \<open>-1\<close>.\<close>

fun indexOf :: "char \<Rightarrow> string \<Rightarrow> int" where
  "indexOf c [] = -1"
| "indexOf c (x # xs) =
     (if x = c then 0 else (let i = indexOf c xs in if i = -1 then -1 else i + 1))"

text \<open>\<open>s.substring(start)\<close>: a negative start counts as 0, one past the end as the length.\<close>

definition substring :: "string \<Rightarrow> int \<Rightarrow> string" where
  "substring s start = drop (nat start) s"

section \<open>JavaScript values and exceptions\<close>

text \<open>
  The dynamically typed arguments of the library are values of \<open>jsval\<close>.  Numbers are
  the integer-valued ones; an object is the list of its own data properties (the first
  binding of a key is the property).  Functions, symbols and exotic objects are not
  modelled.
\<close>

datatype jsval =
    JUndefined
  | JNull
  | JBool bool
  | JNum int
  | JStr string
  | JArr "jsval list"
  | JObj "(string \<times> jsval) list"

datatype error = TypeError | ReferenceError | SyntaxError

fun typeof :: "jsval \<Rightarrow> string" where
  "typeof JUndefined = ''undefined''"
| "typeof JNull = ''object''"
| "typeof (JBool b) = ''boolean''"
| "typeof (JNum n) = ''number''"
| "typeof (JStr s) = ''string''"
| "typeof (JArr xs) = ''object''"
| "typeof (JObj ps) = ''object''"

text \<open>
  \<open>Object.hasOwn(v, k)\<close> converts \<open>v\<close> to an object first, which throws a TypeError for
  \<open>null\<close> and \<open>undefined\<close>.  The keys asked for in this library are \<open>id\<close> and
  \<open>value\<close>, which no array, string, number or boolean owns.
\<close>

fun hasOwn :: "jsval \<Rightarrow> string \<Rightarrow> error + bool" where
  "hasOwn JUndefined k = Inl TypeError"
| "hasOwn JNull k = Inl TypeError"
| "hasOwn (JObj ps) k = Inr (k \<in> set (map fst ps))"
| "hasOwn v k = Inr False"

text \<open>Property read \<open>v[k]\<close> (or \<open>v.k\<close>) for the keys \<open>id\<close>, \<open>type\<close> and \<open>value\<close>.\<close>

fun getprop :: "jsval \<Rightarrow> string \<Rightarrow> error + jsval" where
  "getprop JUndefined k = Inl TypeError"
| "getprop JNull k = Inl TypeError"
| "getprop (JObj ps) k = Inr (case map_of ps k of None \<Rightarrow> JUndefined | Some v \<Rightarrow> v)"
| "getprop v k = Inr JUndefined"

text \<open>Sequencing of computations that may throw, and the short-circuit \<open>&&\<close>.\<close>

definition bindE :: "error + 'a \<Rightarrow> ('a \<Rightarrow> error + 'b) \<Rightarrow> error + 'b" where
  "bindE m f = (case m of Inl e \<Rightarrow> Inl e | Inr x \<Rightarrow> f x)"

definition andE :: "error + bool \<Rightarrow> error + bool \<Rightarrow> error + bool" where
  "andE a b = (case a of Inl e \<Rightarrow> Inl e | Inr x \<Rightarrow> if x then b else Inr False)"

text \<open>\<open>xs.every(p)\<close> stops at the first element on which \<open>p\<close> is falsy or throws.\<close>

fun everyE :: "('a \<Rightarrow> error + bool) \<Rightarrow> 'a list \<Rightarrow> error + bool" where
  "everyE p [] = Inr True"
| "everyE p (x # xs) =
     (case p x of Inl e \<Rightarrow> Inl e | Inr b \<Rightarrow> if b then everyE p xs else Inr False)"

text \<open>\<open>xs.filter(p)\<close> with a callback that may throw.\<close>

fun filterE :: "('a \<Rightarrow> error + bool) \<Rightarrow> 'a list \<Rightarrow> error + 'a list" where
  "filterE p [] = Inr []"
| "filterE p (x # xs) =
     (case p x of Inl e \<Rightarrow> Inl e
      | Inr b \<Rightarrow> (case filterE p xs of Inl e \<Rightarrow> Inl e
                 | Inr ys \<Rightarrow> Inr (if b then x # ys else ys)))"

section \<open>The environment: flat store and console\<close>

text \<open>
  \<open>document.cookie\<close> is the flat store, read and written as one whole string;
  \<open>writes\<close> records every string assigned to it, in order.
  \<open>navigator.cookieEnabled\<close> is the availability flag, and \<open>console\<close> collects what
  \<open>console.error\<close> prints.
\<close>

datatype message =
    CookiesNotEnabled
  | CountMismatch nat nat
  | FailedToAdd
  | StringifyFailed nat
  | BadCookieType

record env =
  navigator_cookieEnabled :: bool
  document_cookie :: string
  writes :: "string list"
  console :: "message list"

definition setCookie :: "string \<Rightarrow> env \<Rightarrow> env" where
  "setCookie s e = e\<lparr>document_cookie := s, writes := writes e @ [s]\<rparr>"

definition consoleError :: "message \<Rightarrow> env \<Rightarrow> env" where
  "consoleError m e = e\<lparr>console := console e @ [m]\<rparr>"

section \<open>Decoding: \<open>Cookies.all\<close>\<close>

definition cookieObj :: "string \<Rightarrow> string \<Rightarrow> jsval \<Rightarrow> jsval" where
  "cookieObj i t v = JObj [(''id'', JStr i), (''type'', JStr t), (''value'', v)]"

definition all :: "env \<Rightarrow> jsval list \<times> env" where
  "all e =
     (if \<not> navigator_cookieEnabled e then ([], consoleError CookiesNotEnabled e)
      else let cookies = document_cookie e in
        if trim cookies = [] then ([], e)
        else (map (\<lambda>cookie.
                let id = trim (hd (str_split CHR ''='' cookie));
                    value = trim (substring cookie (indexOf CHR ''='' cookie + 1))
                in cookieObj id ''string'' (JStr value))
              (str_split CHR '';'' cookies), e))"

text \<open>The first version of the library (StorageW.js): entries carry no \<open>type\<close>.\<close>

definition StorageW_all :: "env \<Rightarrow> jsval list \<times> env" where
  "StorageW_all e =
     (if \<not> navigator_cookieEnabled e then ([], consoleError CookiesNotEnabled e)
      else let cookies = document_cookie e in
        if trim cookies = [] then ([], e)
        else (map (\<lambda>cookie.
                let id = trim (hd (str_split CHR ''='' cookie));
                    value = trim (substring cookie (indexOf CHR ''='' cookie + 1))
                in JObj [(''id'', JStr id), (''value'', JStr value)])
              (str_split CHR '';'' cookies), e))"

section \<open>Encoding: the \<open>store\<close> family\<close>

text \<open>The shape test shared by \<open>store\<close>, \<open>storeArray\<close> and \<open>storeAll\<close>.\<close>

definition isScalarShaped :: "jsval \<Rightarrow> error + bool" where
  "isScalarShaped item =
     andE (Inr (typeof item = ''object''))
    (andE (hasOwn item ''id'')
    (andE (hasOwn item ''value'')
    (andE (bindE (getprop item ''id'') (\<lambda>v. Inr (typeof v = ''string'')))
          (bindE (getprop item ''value'') (\<lambda>v. Inr (typeof v = ''string''))))))"

text \<open>
  The template literal \<open>`${item.id}=${item.value}`\<close>.  Every caller evaluates it after
  the shape test, on string operands; \<open>strOf\<close> reads the string such an operand holds.
\<close>

fun strOf :: "jsval \<Rightarrow> string" where
  "strOf (JStr s) = s"
| "strOf v = []"

definition addedCookie :: "jsval \<Rightarrow> error + string" where
  "addedCookie item =
     bindE (getprop item ''id'') (\<lambda>i.
     bindE (getprop item ''value'') (\<lambda>v.
       Inr (strOf i @ ''='' @ strOf v)))"

definition store :: "jsval \<Rightarrow> env \<Rightarrow> (error + bool) \<times> env" where
  "store item e =
     (case isScalarShaped item of
        Inl err \<Rightarrow> (Inl err, e)
      | Inr ok \<Rightarrow>
          if ok then
            (case addedCookie item of
               Inl err \<Rightarrow> (Inl err, e)
             | Inr added \<Rightarrow>
                 let cookies = document_cookie e;
                     cookies = (if trim cookies = [] then cookies @ added
                                else cookies @ '';'' @ added)
                 in (Inr True, setCookie cookies e))
          else (Inr False, e))"

text \<open>
  The \<open>forEach\<close> of \<open>storeArray\<close>, on the pair of \<open>numberOfAddedCookies\<close> and the local
  \<open>cookies\<close>: a blank accumulator is replaced, any other is extended after a \<open>;\<close>.
\<close>

fun storeArray_forEach :: "jsval list \<Rightarrow> nat \<times> string \<Rightarrow> error + nat \<times> string" where
  "storeArray_forEach [] st = Inr st"
| "storeArray_forEach (item # items) (n, cookies) =
     bindE (addedCookie item) (\<lambda>added.
       storeArray_forEach items
         (n + 1, if trim cookies = [] then added else cookies @ '';'' @ added))"

fun storeArray :: "jsval \<Rightarrow> env \<Rightarrow> (error + bool) \<times> env" where
  "storeArray (JArr items) e =
     (case andE (Inr (length items > 0)) (everyE isScalarShaped items) of
        Inl err \<Rightarrow> (Inl err, e)
      | Inr ok \<Rightarrow>
          if ok then
            (let numberOfItems = length items in
             case storeArray_forEach items (0, document_cookie e) of
               Inl err \<Rightarrow> (Inl err, e)
             | Inr (numberOfAddedCookies, cookies) \<Rightarrow>
                 if numberOfItems = numberOfAddedCookies
                 then (Inr True, setCookie cookies e)
                 else (Inr False,
                       consoleError (CountMismatch numberOfItems numberOfAddedCookies) e))
          else (Inr False, consoleError (CountMismatch 0 0) e))"
| "storeArray v e = (Inr False, consoleError (CountMismatch 0 0) e)"

text \<open>
  \<open>storeAll\<close> of StorageW.js: no test for an empty array, a blank accumulator is kept
  in front of the first entry, the store is written before the counts are compared, and
  a batch that added nothing gets a message of its own.
\<close>

fun storeAll_forEach :: "jsval list \<Rightarrow> nat \<times> string \<Rightarrow> error + nat \<times> string" where
  "storeAll_forEach [] st = Inr st"
| "storeAll_forEach (item # items) (n, cookies) =
     bindE (addedCookie item) (\<lambda>added.
       storeAll_forEach items
         (n + 1, if trim cookies = [] then cookies @ added else cookies @ '';'' @ added))"

definition storeAll_result :: "nat \<Rightarrow> nat \<Rightarrow> env \<Rightarrow> (error + bool) \<times> env" where
  "storeAll_result numberOfItems numberOfAddedCookies e =
     (if numberOfItems > 0 \<and> numberOfItems = numberOfAddedCookies then (Inr True, e)
      else if numberOfItems > 0
        then (Inr False, consoleError (CountMismatch numberOfItems numberOfAddedCookies) e)
        else (Inr False, consoleError FailedToAdd e))"

fun StorageW_storeAll :: "jsval \<Rightarrow> env \<Rightarrow> (error + bool) \<times> env" where
  "StorageW_storeAll (JArr items) e =
     (case everyE isScalarShaped items of
        Inl err \<Rightarrow> (Inl err, e)
      | Inr ok \<Rightarrow>
          if ok then
            (let numberOfItems = length items in
             case storeAll_forEach items (0, document_cookie e) of
               Inl err \<Rightarrow> (Inl err, e)
             | Inr (numberOfAddedCookies, cookies) \<Rightarrow>
                 storeAll_result numberOfItems numberOfAddedCookies (setCookie cookies e))
          else storeAll_result 0 0 e)"
| "StorageW_storeAll v e = storeAll_result 0 0 e"

text \<open>
  \<open>storeAsContainer\<close>: the sub-entries are packed with \<open>&\<close>, and the packed entry is
  concatenated to the content that was read.
\<close>

definition isContainerShaped :: "jsval \<Rightarrow> error + bool" where
  "isContainerShaped item =
     andE (Inr (typeof item = ''object''))
    (andE (hasOwn item ''id'')
    (andE (hasOwn item ''value'')
    (andE (bindE (getprop item ''id'') (\<lambda>v. Inr (typeof v = ''string'')))
    (bindE (getprop item ''value'') (\<lambda>v.
       case v of
         JArr subcookies \<Rightarrow>
           andE (Inr (length subcookies > 0)) (everyE isScalarShaped subcookies)
       | _ \<Rightarrow> Inr False)))))"

fun storeAsContainer_forEach :: "jsval list \<Rightarrow> nat \<times> string \<Rightarrow> error + nat \<times> string" where
  "storeAsContainer_forEach [] st = Inr st"
| "storeAsContainer_forEach (subCookie # subCookies) (n, subCookieString) =
     bindE (addedCookie subCookie) (\<lambda>addedSubCookie.
       storeAsContainer_forEach subCookies
         (n + 1, if trim subCookieString = [] then addedSubCookie
                 else subCookieString @ ''&'' @ addedSubCookie))"

fun arrayItems :: "jsval \<Rightarrow> jsval list" where
  "arrayItems (JArr xs) = xs"
| "arrayItems v = []"

definition storeAsContainer :: "jsval \<Rightarrow> env \<Rightarrow> (error + bool) \<times> env" where
  "storeAsContainer item e =
     (case isContainerShaped item of
        Inl err \<Rightarrow> (Inl err, e)
      | Inr ok \<Rightarrow>
          if ok then
            (case bindE (getprop item ''value'') (\<lambda>v. bindE (getprop item ''id'') (\<lambda>i.
                    bindE (storeAsContainer_forEach (arrayItems v) (0, []))
                      (\<lambda>(numberOfAddedSubCookies, subCookieString).
                         Inr (length (arrayItems v), numberOfAddedSubCookies,
                              strOf i @ ''='' @ subCookieString)))) of
               Inl err \<Rightarrow> (Inl err, e)
             | Inr (subCookieCount, numberOfAddedSubCookies, cookie') \<Rightarrow>
                 let cookies = document_cookie e in
                 if subCookieCount = numberOfAddedSubCookies
                 then (Inr True, setCookie (cookies @ cookie') e)
                 else (Inr False, e))
          else (Inr False, e))"

text \<open>
  \<open>storeArrayAsJSON\<close>.  \<open>JSON.stringify\<close> belongs to the platform and is a parameter: it
  returns a value (a string, or \<open>undefined\<close>) or throws.  Each item is handed to
  \<open>store\<close>; after the loop the content read before it is assigned to the store again.
\<close>

definition isJsonItemShaped :: "jsval \<Rightarrow> error + bool" where
  "isJsonItemShaped item =
     andE (Inr (typeof item = ''object''))
    (andE (hasOwn item ''id'')
    (andE (hasOwn item ''value'')
    (andE (bindE (getprop item ''id'') (\<lambda>v. Inr (typeof v = ''string'')))
          (bindE (getprop item ''value'')
             (\<lambda>v. Inr (typeof v = ''object'' \<or> typeof v = ''string''))))))"

text \<open>
  \<open>try { stringifiedCookie = JSON.stringify(item.value) } catch(e) { stringifiedCookie =
  item.value; console.error(...) }\<close>, on the value \<open>v\<close> of the item at \<open>index\<close>.
\<close>

definition stringifyOrRaw ::
  "(jsval \<Rightarrow> error + jsval) \<Rightarrow> jsval \<Rightarrow> nat \<Rightarrow> env \<Rightarrow> jsval \<times> env" where
  "stringifyOrRaw stringify v index e =
     (case stringify v of
        Inl err \<Rightarrow> (v, consoleError (StringifyFailed index) e)
      | Inr s \<Rightarrow> (s, e))"

fun storeArrayAsJSON_forEach ::
  "(jsval \<Rightarrow> error + jsval) \<Rightarrow> jsval list \<Rightarrow> nat \<Rightarrow> nat \<Rightarrow> env \<Rightarrow> (error + nat) \<times> env" where
  "storeArrayAsJSON_forEach stringify [] index numberOfAddedCookies e =
     (Inr numberOfAddedCookies, e)"
| "storeArrayAsJSON_forEach stringify (item # items) index numberOfAddedCookies e =
     (case getprop item ''value'' of
        Inl err \<Rightarrow> (Inl err, e)
      | Inr v \<Rightarrow>
          (let (stringifiedCookie, e1) = stringifyOrRaw stringify v index e in
           (case getprop item ''id'' of
              Inl err \<Rightarrow> (Inl err, e1)
            | Inr i \<Rightarrow>
                (case store (JObj [(''id'', i), (''value'', stringifiedCookie)]) e1 of
                   (Inl err, e2) \<Rightarrow> (Inl err, e2)
                 | (Inr stored, e2) \<Rightarrow>
                     storeArrayAsJSON_forEach stringify items (index + 1)
                       (if stored then numberOfAddedCookies + 1 else numberOfAddedCookies)
                       e2))))"

definition storeArrayAsJSON_result :: "nat \<Rightarrow> nat \<Rightarrow> env \<Rightarrow> (error + bool) \<times> env" where
  "storeArrayAsJSON_result numberOfItems numberOfAddedCookies e =
     (if numberOfItems = numberOfAddedCookies then (Inr True, e)
      else (Inr False, consoleError (CountMismatch numberOfItems numberOfAddedCookies) e))"

fun storeArrayAsJSON :: "(jsval \<Rightarrow> error + jsval) \<Rightarrow> jsval \<Rightarrow> env \<Rightarrow> (error + bool) \<times> env" where
  "storeArrayAsJSON stringify (JArr items) e =
     (case andE (Inr (length items > 0)) (everyE isJsonItemShaped items) of
        Inl err \<Rightarrow> (Inl err, e)
      | Inr ok \<Rightarrow>
          if ok then
            (let numberOfItems = length items;
                 cookies = document_cookie e in
             case storeArrayAsJSON_forEach stringify items 0 0 e of
               (Inl err, e') \<Rightarrow> (Inl err, e')
             | (Inr numberOfAddedCookies, e') \<Rightarrow>
                 storeArrayAsJSON_result numberOfItems numberOfAddedCookies
                   (setCookie cookies e'))
          else storeArrayAsJSON_result 0 0 e)"
| "storeArrayAsJSON stringify v e = storeArrayAsJSON_result 0 0 e"

section \<open>Queries: \<open>first\<close>, \<open>find\<close> and their \<open>In\<close> variants\<close>

text \<open>
  A query is an integer (\<open>Number.isInteger\<close>), a string, a \<open>RegExp\<close> (its \<open>test\<close>, for
  a pattern without the global and sticky flags, is a predicate on strings), or anything
  else.
\<close>

datatype query = QInt int | QStr string | QRegExp "string \<Rightarrow> bool" | QOther

text \<open>
  The body that \<open>first\<close> and \<open>firstIn\<close> run on a non-empty array \<open>cookies\<close>.  An
  integer for which neither range test holds falls through the string and pattern tests
  to \<open>return null\<close>.
\<close>

fun firstOf :: "jsval list \<Rightarrow> query \<Rightarrow> error + jsval" where
  "firstOf cookies (QInt query) =
     (if query \<ge> 0 \<and> query < int (length cookies) then Inr (cookies ! nat query)
      else if query < 0 \<and> query > - int (length cookies)
        then Inr (cookies ! nat (int (length cookies) + query))
      else Inr JNull)"
| "firstOf cookies (QStr query) =
     bindE (filterE (\<lambda>item. bindE (getprop item ''id'') (\<lambda>i. Inr (i = JStr query))) cookies)
       (\<lambda>filteredCookies. Inr (if filteredCookies \<noteq> [] then hd filteredCookies else JNull))"
| "firstOf cookies (QRegExp query) =
     bindE (filterE (\<lambda>item. bindE (getprop item ''id'') (\<lambda>i. Inr (query (strOf i)))) cookies)
       (\<lambda>filteredCookies. Inr (if filteredCookies \<noteq> [] then hd filteredCookies else JNull))"
| "firstOf cookies QOther = Inr JNull"

text \<open>The body of \<open>find\<close> and \<open>findIn\<close>: the same tests, the results wrapped in arrays.\<close>

fun findOf :: "jsval list \<Rightarrow> query \<Rightarrow> error + jsval" where
  "findOf cookies (QInt query) =
     (if query \<ge> 0 \<and> query < int (length cookies) then Inr (JArr [cookies ! nat query])
      else if query < 0 \<and> query > - int (length cookies)
        then Inr (JArr [cookies ! nat (int (length cookies) + query)])
      else Inr JNull)"
| "findOf cookies (QStr query) =
     bindE (filterE (\<lambda>item. bindE (getprop item ''id'') (\<lambda>i. Inr (i = JStr query))) cookies)
       (\<lambda>filteredCookies. Inr (if filteredCookies \<noteq> [] then JArr filteredCookies else JNull))"
| "findOf cookies (QRegExp query) =
     bindE (filterE (\<lambda>item. bindE (getprop item ''id'') (\<lambda>i. Inr (query (strOf i)))) cookies)
       (\<lambda>filteredCookies. Inr (if filteredCookies \<noteq> [] then JArr filteredCookies else JNull))"
| "findOf cookies QOther = Inr JNull"

definition first :: "query \<Rightarrow> env \<Rightarrow> (error + jsval) \<times> env" where
  "first query e =
     (let (cookies, e') = all e in
      if cookies \<noteq> [] then (firstOf cookies query, e') else (Inr JNull, e'))"

definition StorageW_first :: "query \<Rightarrow> env \<Rightarrow> (error + jsval) \<times> env" where
  "StorageW_first query e =
     (let (cookies, e') = StorageW_all e in
      if cookies \<noteq> [] then (firstOf cookies query, e') else (Inr JNull, e'))"

definition find_cookies :: "query \<Rightarrow> env \<Rightarrow> (error + jsval) \<times> env" where
  "find_cookies query e =
     (let (cookies, e') = all e in
      if cookies \<noteq> [] then (findOf cookies query, e') else (Inr JNull, e'))"

text \<open>
  The callback that \<open>firstIn\<close> and \<open>findIn\<close> pass to \<open>every\<close> has a block body holding
  one expression statement and no \<open>return\<close>: the shape expression is evaluated (it may
  throw) and the callback returns \<open>undefined\<close>, which \<open>every\<close> takes as false.
\<close>

definition isEntryShaped :: "jsval \<Rightarrow> error + bool" where
  "isEntryShaped cookie =
     andE (Inr (typeof cookie = ''object''))
    (andE (hasOwn cookie ''id'')
    (andE (hasOwn cookie ''value'')
    (andE (bindE (getprop cookie ''id'') (\<lambda>v. Inr (typeof v = ''string'')))
          (bindE (getprop cookie ''value'')
             (\<lambda>v. Inr (typeof v = ''string'' \<or> typeof v = ''object''))))))"

definition everyCallback :: "jsval \<Rightarrow> error + bool" where
  "everyCallback cookie = bindE (isEntryShaped cookie) (\<lambda>discarded. Inr False)"

fun firstIn :: "jsval \<Rightarrow> query \<Rightarrow> error + jsval" where
  "firstIn (JArr cookies) query =
     (case andE (Inr (cookies \<noteq> [])) (everyE everyCallback cookies) of
        Inl err \<Rightarrow> Inl err
      | Inr ok \<Rightarrow> if ok then firstOf cookies query else Inr JNull)"
| "firstIn v query = Inr JNull"

fun findIn :: "jsval \<Rightarrow> query \<Rightarrow> error + jsval" where
  "findIn (JArr cookies) query =
     (case andE (Inr (cookies \<noteq> [])) (everyE everyCallback cookies) of
        Inl err \<Rightarrow> Inl err
      | Inr ok \<Rightarrow> if ok then findOf cookies query else Inr JNull)"
| "findIn v query = Inr JNull"

section \<open>Classification: \<open>unravel\<close>\<close>

text \<open>
  \<open>JSON.parse\<close> belongs to the platform and is a parameter: it returns the parsed value
  or throws a SyntaxError.

  The object literal of the JSON pass reads an identifier \<open>parsedType\<close>.  The file
  declares no binding of that name, so evaluating it throws a ReferenceError, inside the
  \<open>try\<close> block.
\<close>

definition parsedType :: "error + jsval" where
  "parsedType = Inl ReferenceError"

definition jsonPass_try :: "(jsval \<Rightarrow> error + jsval) \<Rightarrow> jsval \<Rightarrow> error + jsval" where
  "jsonPass_try JSON_parse c =
     bindE (getprop c ''value'') (\<lambda>v.
     bindE (JSON_parse v) (\<lambda>parsedValue.
     bindE (getprop c ''id'') (\<lambda>i.
     bindE parsedType (\<lambda>t.
       Inr (JObj [(''id'', i), (''type'', t), (''value'', parsedValue)])))))"

text \<open>\<open>try { ... } catch(e) { return cookie; }\<close>\<close>

definition jsonPass :: "(jsval \<Rightarrow> error + jsval) \<Rightarrow> jsval \<Rightarrow> jsval" where
  "jsonPass JSON_parse c =
     (case jsonPass_try JSON_parse c of Inl e \<Rightarrow> c | Inr checked \<Rightarrow> checked)"

definition subCookie :: "string \<Rightarrow> jsval" where
  "subCookie v =
     (if indexOf CHR ''='' v \<noteq> -1
      then cookieObj (hd (str_split CHR ''='' v)) ''string''
             (JStr (trim (substring v (indexOf CHR ''='' v + 1))))
      else cookieObj v ''string'' (JStr []))"

definition containerPass :: "jsval \<Rightarrow> error + jsval" where
  "containerPass c =
     bindE (getprop c ''value'') (\<lambda>v.
       case v of
         JStr s \<Rightarrow>
           if indexOf CHR ''='' s \<noteq> -1 \<and> indexOf CHR ''&'' s \<noteq> -1 \<and>
              list_all (\<lambda>i. length (str_split CHR ''='' i) = 2) (str_split CHR ''&'' s)
           then bindE (getprop c ''id'') (\<lambda>i.
                  Inr (JObj [(''id'', i), (''type'', JStr ''container''),
                             (''value'', JArr (map subCookie (str_split CHR ''&'' s)))]))
           else Inr c
       | _ \<Rightarrow> Inr c)"

fun mapE :: "('a \<Rightarrow> error + 'b) \<Rightarrow> 'a list \<Rightarrow> error + 'b list" where
  "mapE f [] = Inr []"
| "mapE f (x # xs) = bindE (f x) (\<lambda>y. bindE (mapE f xs) (\<lambda>ys. Inr (y # ys)))"

text \<open>
  The argument is \<open>undefined\<close> when the caller passes none; the default is \<open>'all'\<close>.
  In the first test, \<open>'all'|'none'|'json'|'container'\<close> is a bitwise or of four strings,
  the number 0, so the array is \<open>[0]\<close> and the test rejects every non-string other than
  0.  The JSON pass is skipped for \<open>'string'\<close> and \<open>'container'\<close>, the container pass
  for \<open>'string'\<close> and \<open>'json'\<close>.
\<close>

definition unravel ::
  "(jsval \<Rightarrow> error + jsval) \<Rightarrow> jsval \<Rightarrow> env \<Rightarrow> (error + jsval) \<times> env" where
  "unravel JSON_parse arg e =
     (let cookieType = (if arg = JUndefined then JStr ''all'' else arg);
          (cookies, e') = all e
      in if typeof cookieType \<noteq> ''string'' \<and> cookieType \<noteq> JNum 0
         then (Inr JUndefined, consoleError BadCookieType e')
         else
           let checkedCookies = cookies;
               checkedCookies =
                 (if cookieType \<noteq> JStr ''string'' \<and> cookieType \<noteq> JStr ''container''
                  then map (jsonPass JSON_parse) checkedCookies else checkedCookies)
           in if cookieType \<noteq> JStr ''string'' \<and> cookieType \<noteq> JStr ''json''
              then (bindE (mapE containerPass checkedCookies) (\<lambda>cs. Inr (JArr cs)), e')
              else (Inr (JArr checkedCookies), e'))"

text \<open>\<open>unravel\<close> of StorageW.js: one JSON pass, no mode, entries without \<open>type\<close>.\<close>

definition StorageW_jsonPass :: "(jsval \<Rightarrow> error + jsval) \<Rightarrow> jsval \<Rightarrow> jsval" where
  "StorageW_jsonPass JSON_parse c =
     (case bindE (getprop c ''value'') (\<lambda>v.
           bindE (JSON_parse v) (\<lambda>parsedValue.
           bindE (getprop c ''id'') (\<lambda>i.
             Inr (JObj [(''id'', i), (''value'', parsedValue)])))) of
        Inl e \<Rightarrow> c
      | Inr checked \<Rightarrow> checked)"

definition StorageW_unravel :: "(jsval \<Rightarrow> error + jsval) \<Rightarrow> env \<Rightarrow> jsval list \<times> env" where
  "StorageW_unravel JSON_parse e =
     (let (cookies, e') = StorageW_all e in (map (StorageW_jsonPass JSON_parse) cookies, e'))"

section \<open>Notions used to state the properties\<close>

text \<open>
  The id and the value that an entry object holds, the text \<open>id=value\<close> it is stored
  as, and a list of such texts joined by \<open>;\<close>.
\<close>

definition idOf :: "jsval \<Rightarrow> string" where
  "idOf item = (case getprop item ''id'' of Inr (JStr s) \<Rightarrow> s | _ \<Rightarrow> [])"

definition valueOf :: "jsval \<Rightarrow> string" where
  "valueOf item = (case getprop item ''value'' of Inr (JStr s) \<Rightarrow> s | _ \<Rightarrow> [])"

definition entryText :: "jsval \<Rightarrow> string" where
  "entryText item = idOf item @ ''='' @ valueOf item"

definition joinEntries :: "string list \<Rightarrow> string" where
  "joinEntries ts = (case ts of [] \<Rightarrow> [] | t # us \<Rightarrow> t @ concat (map (\<lambda>u. CHR '';'' # u) us))"

text \<open>
  An id and a value that survive a round trip: no \<open>;\<close> and no \<open>=\<close> in either, and no
  white space at either end of either.
\<close>

definition wellFormed :: "string \<times> string \<Rightarrow> bool" where
  "wellFormed p \<longleftrightarrow>
     CHR '';'' \<notin> set (fst p) \<and> CHR ''='' \<notin> set (fst p) \<and>
     CHR '';'' \<notin> set (snd p) \<and> CHR ''='' \<notin> set (snd p) \<and>
     trim (fst p) = fst p \<and> trim (snd p) = snd p"

text \<open>
  The container condition in the words of the specification: at least one \<open>&\<close>, and
  exactly one \<open>=\<close> in every \<open>&\<close>-delimited segment; and a segment split on its first
  \<open>=\<close>.
\<close>

definition qualifiesAsContainer :: "string \<Rightarrow> bool" where
  "qualifiesAsContainer s \<longleftrightarrow>
     CHR ''&'' \<in> set s \<and>
     list_all (\<lambda>seg. count_list seg CHR ''='' = 1) (str_split CHR ''&'' s)"

definition splitFirst :: "string \<Rightarrow> string \<times> string" where
  "splitFirst seg =
     (takeWhile (\<lambda>x. x \<noteq> CHR ''='') seg, drop 1 (dropWhile (\<lambda>x. x \<noteq> CHR ''='') seg))"

text \<open>An enabled store that holds the string \<open>s\<close>, nothing written or logged so far.\<close>

definition storeWith :: "string \<Rightarrow> env" where
  "storeWith s = \<lparr>navigator_cookieEnabled = True, document_cookie = s, writes = [], console = []\<rparr>"

section \<open>Facts about the string operations\<close>

lemma str_split_nonempty: "str_split c s \<noteq> []"
  by (induction s) auto

lemma str_split_no_sep: "c \<notin> set s \<Longrightarrow> str_split c s = [s]"
  by (induction s) auto

lemma str_split_append: "c \<notin> set a \<Longrightarrow> str_split c (a @ c # b) = a # str_split c b"
  by (induction a) auto

lemma hd_str_split: "hd (str_split c s) = takeWhile (\<lambda>x. x \<noteq> c) s"
  by (induction s) auto

lemma length_str_split_count: "length (str_split c s) = Suc (count_list s c)"
  by (induction s) (auto simp: str_split_nonempty)

lemma set_str_split: "seg \<in> set (str_split c s) \<Longrightarrow> set seg \<subseteq> set s"
proof (induction s arbitrary: seg)
  case Nil
  then show ?case by simp
next
  case (Cons x xs)
  have ne: "str_split c xs \<noteq> []" by (rule str_split_nonempty)
  show ?case
  proof (cases "x = c")
    case True
    with Cons show ?thesis by auto
  next
    case False
    with Cons.prems have "seg = x # hd (str_split c xs) \<or> seg \<in> set (tl (str_split c xs))"
      by simp
    then show ?thesis
    proof
      assume "seg = x # hd (str_split c xs)"
      moreover have "set (hd (str_split c xs)) \<subseteq> set xs"
        using Cons.IH[of "hd (str_split c xs)"] ne by simp
      ultimately show ?thesis by auto
    next
      assume "seg \<in> set (tl (str_split c xs))"
      then have "seg \<in> set (str_split c xs)" using ne by (auto dest: list.set_sel(2))
      from Cons.IH[OF this] show ?thesis by auto
    qed
  qed
qed

lemma indexOf_ge: "indexOf c s \<ge> -1"
  by (induction s) (auto simp: Let_def)

lemma indexOf_no: "indexOf c s = -1 \<longleftrightarrow> c \<notin> set s"
proof (induction s)
  case Nil
  then show ?case by simp
next
  case (Cons a s)
  have "indexOf c s \<ge> -1" by (rule indexOf_ge)
  with Cons show ?case by (auto simp: Let_def)
qed

lemma indexOf_append: "c \<notin> set a \<Longrightarrow> indexOf c (a @ c # b) = int (length a)"
  by (induction a) (auto simp: Let_def)

lemma substring_after: "c \<notin> set a \<Longrightarrow> substring (a @ c # b) (indexOf c (a @ c # b) + 1) = b"
  by (simp add: indexOf_append substring_def nat_add_distrib)

lemma substring_no: "c \<notin> set s \<Longrightarrow> substring s (indexOf c s + 1) = s"
  using indexOf_no[of c s] by (simp add: substring_def)

lemma substring_first:
  assumes "c \<in> set seg"
  shows "substring seg (indexOf c seg + 1) = drop 1 (dropWhile (\<lambda>x. x \<noteq> c) seg)"
proof -
  let ?a = "takeWhile (\<lambda>x. x \<noteq> c) seg"
  let ?b = "dropWhile (\<lambda>x. x \<noteq> c) seg"
  from assms have "?b \<noteq> []" by auto
  moreover have "hd ?b = c" using hd_dropWhile[OF \<open>?b \<noteq> []\<close>] by simp
  ultimately have b: "?b = c # tl ?b" by (cases ?b) auto
  have na: "c \<notin> set ?a" by (auto dest: set_takeWhileD)
  have "seg = ?a @ c # tl ?b" using b takeWhile_dropWhile_id[of "\<lambda>x. x \<noteq> c" seg] by simp
  then have "substring seg (indexOf c seg + 1) = substring (?a @ c # tl ?b) (indexOf c (?a @ c # tl ?b) + 1)"
    by simp
  also have "\<dots> = tl ?b" using na by (rule substring_after)
  finally show ?thesis by (simp add: drop_Suc)
qed

lemma dropWhile_all: "(\<forall>x \<in> set (dropWhile P xs). P x) \<longleftrightarrow> (\<forall>x \<in> set xs. P x)"
  by (induction xs) auto

lemma trim_blank: "trim s = [] \<longleftrightarrow> (\<forall>c \<in> set s. isWhiteSpace c)"
  by (simp add: trim_def dropWhile_all)

lemma nonblank_append: "trim acc \<noteq> [] \<Longrightarrow> trim (acc @ t) \<noteq> []"
  unfolding trim_blank by auto


section \<open>Facts about the shape tests and the batch loops\<close>

lemma typeof_string: "typeof v = ''string'' \<longleftrightarrow> (\<exists>s. v = JStr s)"
  by (cases v) auto

lemma isScalarShaped_obj:
  "isScalarShaped item = Inr True \<longleftrightarrow>
     (\<exists>ps i v. item = JObj ps \<and> map_of ps ''id'' = Some (JStr i) \<and> map_of ps ''value'' = Some (JStr v))"
proof (cases item)
  case (JObj ps)
  have own: "\<And>k. k \<in> fst ` set ps \<longleftrightarrow> map_of ps k \<noteq> None"
    by (simp add: map_of_eq_None_iff)
  show ?thesis unfolding JObj
    by (auto simp: isScalarShaped_def andE_def bindE_def typeof_string own
             split: option.splits if_splits)
qed (auto simp: isScalarShaped_def andE_def bindE_def)

lemma isScalarShaped_no_throw: "isScalarShaped item = Inl err \<longleftrightarrow> item = JNull \<and> err = TypeError"
  by (cases item) (auto simp: isScalarShaped_def andE_def bindE_def split: option.splits if_splits)

lemma addedCookie_shaped: "isScalarShaped item = Inr True \<Longrightarrow> addedCookie item = Inr (entryText item)"
  by (auto simp: isScalarShaped_obj addedCookie_def entryText_def idOf_def valueOf_def bindE_def)

lemma entryText_nonblank: "trim (a @ entryText item @ b) \<noteq> []"
proof -
  have "CHR ''='' \<in> set (a @ entryText item @ b)" by (simp add: entryText_def)
  moreover have "\<not> isWhiteSpace CHR ''=''" by (simp add: isWhiteSpace_def)
  ultimately show ?thesis unfolding trim_blank by blast
qed

lemma entryText_cookieObj [simp]: "entryText (cookieObj i t (JStr v)) = i @ CHR ''='' # v"
  by (simp add: entryText_def idOf_def valueOf_def cookieObj_def)

lemma entryText_plain [simp]:
  "entryText (JObj [(''id'', JStr i), (''value'', JStr v)]) = i @ CHR ''='' # v"
  by (simp add: entryText_def idOf_def valueOf_def)

lemma shaped_cookieObj [simp]: "isScalarShaped (cookieObj i t (JStr v)) = Inr True"
  by (simp add: isScalarShaped_obj cookieObj_def)

lemma shaped_plain [simp]: "isScalarShaped (JObj [(''id'', JStr i), (''value'', JStr v)]) = Inr True"
  by (simp add: isScalarShaped_obj)

lemma everyE_True: "everyE p xs = Inr True \<longleftrightarrow> (\<forall>x \<in> set xs. p x = Inr True)"
  by (induction xs) (auto split: sum.splits)

lemma foldl_nonblank:
  "trim acc \<noteq> [] \<Longrightarrow>
   foldl (\<lambda>c t. if trim c = [] then f c t else c @ '';'' @ t) acc ts
     = acc @ concat (map (\<lambda>u. CHR '';'' # u) ts)"
proof (induction ts arbitrary: acc)
  case Nil
  then show ?case by simp
next
  case (Cons t ts)
  from Cons.prems have "trim (acc @ '';'' @ t) \<noteq> []" by (rule nonblank_append)
  from Cons.IH[OF this] Cons.prems show ?case by simp
qed

lemma storeArray_forEach_shaped:
  "\<forall>item \<in> set items. isScalarShaped item = Inr True \<Longrightarrow>
   storeArray_forEach items (n, acc) =
     Inr (n + length items,
          foldl (\<lambda>c t. if trim c = [] then t else c @ '';'' @ t) acc (map entryText items))"
  by (induction items arbitrary: n acc) (simp_all add: addedCookie_shaped bindE_def)

lemma storeAll_forEach_shaped:
  "\<forall>item \<in> set items. isScalarShaped item = Inr True \<Longrightarrow>
   storeAll_forEach items (n, acc) =
     Inr (n + length items,
          foldl (\<lambda>c t. if trim c = [] then c @ t else c @ '';'' @ t) acc (map entryText items))"
  by (induction items arbitrary: n acc) (simp_all add: addedCookie_shaped bindE_def)

lemma foldl_storeArray:
  assumes "items \<noteq> []"
  shows "foldl (\<lambda>c t. if trim c = [] then t else c @ '';'' @ t) acc (map entryText items)
           = (if trim acc = [] then joinEntries (map entryText items)
              else acc @ '';'' @ joinEntries (map entryText items))"
proof -
  from assms obtain x xs where items: "items = x # xs" by (cases items) auto
  have nb: "trim (entryText x) \<noteq> []" using entryText_nonblank[of "[]" x "[]"] by simp
  show ?thesis
  proof (cases "trim acc = []")
    case True
    then show ?thesis
      using foldl_nonblank[OF nb, of "\<lambda>c t. t"] by (simp add: items joinEntries_def)
  next
    case False
    then show ?thesis
      using foldl_nonblank[OF False, of "\<lambda>c t. t" "map entryText items"]
      by (simp add: items joinEntries_def)
  qed
qed

lemma foldl_storeAll:
  assumes "items \<noteq> []"
  shows "foldl (\<lambda>c t. if trim c = [] then c @ t else c @ '';'' @ t) acc (map entryText items)
           = (if trim acc = [] then acc @ joinEntries (map entryText items)
              else acc @ '';'' @ joinEntries (map entryText items))"
proof -
  from assms obtain x xs where items: "items = x # xs" by (cases items) auto
  have nb: "trim (acc @ entryText x) \<noteq> []" using entryText_nonblank[of acc x "[]"] by simp
  show ?thesis
  proof (cases "trim acc = []")
    case True
    then show ?thesis
      using foldl_nonblank[OF nb, of "\<lambda>c t. c @ t"] by (simp add: items joinEntries_def)
  next
    case False
    then show ?thesis
      using foldl_nonblank[OF False, of "\<lambda>c t. c @ t" "map entryText items"]
      by (simp add: items joinEntries_def)
  qed
qed

lemma storeArray_accepted:
  assumes ne: "items \<noteq> []" and sh: "\<forall>item \<in> set items. isScalarShaped item = Inr True"
  shows "storeArray (JArr items) e
      = (Inr True, setCookie (if trim (document_cookie e) = [] then joinEntries (map entryText items)
                              else document_cookie e @ '';'' @ joinEntries (map entryText items)) e)"
proof -
  from sh have "everyE isScalarShaped items = Inr True" by (simp add: everyE_True)
  with ne show ?thesis
    by (simp add: andE_def storeArray_forEach_shaped[OF sh] foldl_storeArray[OF ne])
qed

lemma storeAll_accepted:
  assumes ne: "items \<noteq> []" and sh: "\<forall>item \<in> set items. isScalarShaped item = Inr True"
  shows "StorageW_storeAll (JArr items) e
      = (Inr True, setCookie (if trim (document_cookie e) = []
                              then document_cookie e @ joinEntries (map entryText items)
                              else document_cookie e @ '';'' @ joinEntries (map entryText items)) e)"
proof -
  from sh have "everyE isScalarShaped items = Inr True" by (simp add: everyE_True)
  with ne show ?thesis
    by (simp add: storeAll_forEach_shaped[OF sh] foldl_storeAll[OF ne] storeAll_result_def)
qed

lemma str_split_join:
  "c \<notin> set t \<Longrightarrow> \<forall>u \<in> set ts. c \<notin> set u \<Longrightarrow>
   str_split c (t @ concat (map (\<lambda>u. c # u) ts)) = t # ts"
proof (induction ts arbitrary: t)
  case Nil
  then show ?case by (simp add: str_split_no_sep)
next
  case (Cons u us)
  then have "str_split c (u @ concat (map (\<lambda>u. c # u) us)) = u # us" by simp
  with Cons.prems(1) show ?case by (simp add: str_split_append)
qed

lemma str_split_joinEntries:
  "ts \<noteq> [] \<Longrightarrow> \<forall>u \<in> set ts. CHR '';'' \<notin> set u \<Longrightarrow> str_split CHR '';'' (joinEntries ts) = ts"
  by (cases ts) (simp_all add: joinEntries_def str_split_join)

lemma joinEntries_nonblank: "items \<noteq> [] \<Longrightarrow> trim (joinEntries (map entryText items)) \<noteq> []"
proof (cases items)
  case (Cons x xs)
  show ?thesis
    using entryText_nonblank[of "[]" x "concat (map (\<lambda>u. CHR '';'' # u) (map entryText xs))"]
    by (simp add: Cons joinEntries_def)
qed simp

lemma decode_id: "CHR ''='' \<notin> set i \<Longrightarrow> hd (str_split CHR ''='' (i @ CHR ''='' # v)) = i"
  by (induction i) (auto simp: hd_str_split)

lemma decode_value:
  "CHR ''='' \<notin> set i \<Longrightarrow>
   substring (i @ CHR ''='' # v) (indexOf CHR ''='' (i @ CHR ''='' # v) + 1) = v"
  by (rule substring_after)

lemma all_segments:
  assumes "navigator_cookieEnabled e" "trim (document_cookie e) \<noteq> []"
  shows "fst (all e) = map (\<lambda>seg. cookieObj (trim (hd (str_split CHR ''='' seg))) ''string''
                 (JStr (trim (substring seg (indexOf CHR ''='' seg + 1)))))
               (str_split CHR '';'' (document_cookie e))"
  using assms by (simp add: all_def Let_def)

lemma StorageW_all_segments:
  assumes "navigator_cookieEnabled e" "trim (document_cookie e) \<noteq> []"
  shows "fst (StorageW_all e) = map (\<lambda>seg. JObj [(''id'', JStr (trim (hd (str_split CHR ''='' seg)))),
                 (''value'', JStr (trim (substring seg (indexOf CHR ''='' seg + 1))))])
               (str_split CHR '';'' (document_cookie e))"
  using assms by (simp add: StorageW_all_def Let_def)

lemma isJsonItemShaped_obj:
  "isJsonItemShaped item = Inr True \<Longrightarrow> \<exists>ps. item = JObj ps"
  by (cases item) (auto simp: isJsonItemShaped_def andE_def bindE_def)

lemma store_obj_no_throw: "\<exists>stored e'. store (JObj ps) e = (Inr stored, e')"
proof (cases "isScalarShaped (JObj ps)")
  case (Inl err)
  then show ?thesis by (simp add: isScalarShaped_no_throw)
next
  case (Inr ok)
  show ?thesis
  proof (cases ok)
    case True
    with Inr have "addedCookie (JObj ps) = Inr (entryText (JObj ps))"
      by (simp add: addedCookie_shaped)
    with Inr True show ?thesis by (auto simp: store_def Let_def)
  next
    case False
    with Inr show ?thesis by (auto simp: store_def)
  qed
qed

lemma storeArrayAsJSON_forEach_returns:
  "\<forall>item \<in> set items. isJsonItemShaped item = Inr True \<Longrightarrow>
   \<exists>n e'. storeArrayAsJSON_forEach stringify items index k e = (Inr n, e')"
proof (induction items arbitrary: index k e)
  case Nil
  then show ?case by simp
next
  case (Cons item items)
  then obtain ps where item: "item = JObj ps" using isJsonItemShaped_obj[of item] by auto
  obtain v where v: "getprop item ''value'' = Inr v" by (simp add: item)
  obtain i where i: "getprop item ''id'' = Inr i" by (simp add: item)
  obtain s e1 where se1: "stringifyOrRaw stringify v index e = (s, e1)"
    by (cases "stringifyOrRaw stringify v index e") auto
  obtain stored e2 where st: "store (JObj [(''id'', i), (''value'', s)]) e1 = (Inr stored, e2)"
    using store_obj_no_throw by blast
  from Cons.prems have rest: "\<forall>item \<in> set items. isJsonItemShaped item = Inr True" by simp
  from Cons.IH[OF rest, of "index + 1" "if stored then k + 1 else k" e2]
  show ?case by (simp add: v i se1 st)
qed


section \<open>Facts about queries and classification\<close>

lemma fst_first:
  "fst (first q e) = (if fst (all e) = [] then Inr JNull else firstOf (fst (all e)) q)"
  by (simp add: first_def split: prod.splits)

lemma fst_StorageW_first:
  "fst (StorageW_first q e) = (if fst (StorageW_all e) = [] then Inr JNull else firstOf (fst (StorageW_all e)) q)"
  by (simp add: StorageW_first_def split: prod.splits)

lemma firstOf_boundary:
  "firstOf cs (QInt (int (length cs))) = Inr JNull"
  "firstOf cs (QInt (- int (length cs) - 1)) = Inr JNull"
  "firstOf cs (QInt (- int (length cs))) = Inr JNull"
  "cs \<noteq> [] \<Longrightarrow> firstOf cs (QInt 0) = Inr (hd cs)"
  "- int (length cs) < i \<Longrightarrow> i < 0 \<Longrightarrow> firstOf cs (QInt i) = Inr (cs ! nat (int (length cs) + i))"
  by (simp_all add: hd_conv_nth)

lemma jsonPass_unchanged: "jsonPass JSON_parse c = c"
  by (simp add: jsonPass_def jsonPass_try_def parsedType_def bindE_def split: sum.splits)

lemma map_jsonPass: "map (jsonPass JSON_parse) cs = cs"
  by (induction cs) (simp_all add: jsonPass_unchanged)

lemma count_one_mem: "count_list seg c = 1 \<Longrightarrow> c \<in> set seg"
  using count_list_0_iff[of seg c] by auto

lemma qualifies_has_equals:
  assumes "list_all (\<lambda>seg. count_list seg CHR ''='' = 1) (str_split CHR ''&'' s)"
  shows "CHR ''='' \<in> set s"
proof -
  have ne: "str_split CHR ''&'' s \<noteq> []" by (rule str_split_nonempty)
  then have m: "hd (str_split CHR ''&'' s) \<in> set (str_split CHR ''&'' s)" by simp
  with assms have "count_list (hd (str_split CHR ''&'' s)) CHR ''='' = 1"
    by (simp add: list_all_iff)
  then have "CHR ''='' \<in> set (hd (str_split CHR ''&'' s))" by (rule count_one_mem)
  with set_str_split[OF m] show ?thesis by auto
qed

lemma container_test:
  "(indexOf CHR ''='' s \<noteq> -1 \<and> indexOf CHR ''&'' s \<noteq> -1 \<and>
    list_all (\<lambda>i. length (str_split CHR ''='' i) = 2) (str_split CHR ''&'' s))
   \<longleftrightarrow> qualifiesAsContainer s"
  using qualifies_has_equals[of s]
  by (auto simp: indexOf_no qualifiesAsContainer_def length_str_split_count)

lemma subCookie_splitFirst:
  "CHR ''='' \<in> set seg \<Longrightarrow>
   subCookie seg = cookieObj (fst (splitFirst seg)) ''string'' (JStr (trim (snd (splitFirst seg))))"
  by (simp add: subCookie_def indexOf_no splitFirst_def hd_str_split substring_first)

lemma map_subCookie:
  assumes "qualifiesAsContainer s"
  shows "map subCookie (str_split CHR ''&'' s)
       = map (\<lambda>seg. cookieObj (fst (splitFirst seg)) ''string'' (JStr (trim (snd (splitFirst seg)))))
           (str_split CHR ''&'' s)"
proof (rule map_cong[OF refl])
  fix seg assume "seg \<in> set (str_split CHR ''&'' s)"
  with assms have "count_list seg CHR ''='' = 1"
    by (simp add: qualifiesAsContainer_def list_all_iff)
  then have "CHR ''='' \<in> set seg" by (rule count_one_mem)
  then show "subCookie seg = cookieObj (fst (splitFirst seg)) ''string'' (JStr (trim (snd (splitFirst seg))))"
    by (rule subCookie_splitFirst)
qed

section \<open>Round trip of a batch (C1)\<close>

text \<open>
  Claim C1, as the code has it.  Take any sequence of Scalar entries whose ids and values
  contain neither \<open>;\<close> nor \<open>=\<close> and carry no white space at either end, and an enabled
  store whose content is empty.  Writing the sequence with the batch operation
  (\<open>storeArray\<close>, and \<open>storeAll\<close> of StorageW.js) and decoding the store with \<open>all\<close>
  gives the sequence back: same length, same order, every entry Scalar with its id and
  value.
\<close>

theorem roundtrip_trimmed:
  assumes en: "navigator_cookieEnabled e" and empty: "document_cookie e = []"
    and wf: "\<forall>p \<in> set entries. wellFormed p"
  shows "fst (all (snd (storeArray
            (JArr (map (\<lambda>(i, v). cookieObj i ''string'' (JStr v)) entries)) e)))
          = map (\<lambda>(i, v). cookieObj i ''string'' (JStr v)) entries
       \<and> fst (StorageW_all (snd (StorageW_storeAll
            (JArr (map (\<lambda>(i, v). JObj [(''id'', JStr i), (''value'', JStr v)]) entries)) e)))
          = map (\<lambda>(i, v). JObj [(''id'', JStr i), (''value'', JStr v)]) entries"
proof (cases "entries = []")
  case True
  then show ?thesis using en empty
    by (simp add: andE_def consoleError_def all_def StorageW_all_def trim_def
          storeAll_result_def setCookie_def)
next
  case False
  let ?mk = "\<lambda>(i, v). cookieObj i ''string'' (JStr v)"
  let ?mk' = "\<lambda>(i, v). JObj [(''id'', JStr i), (''value'', JStr v)]"
  let ?txt = "\<lambda>(i, v). i @ CHR ''='' # v"
  let ?packed = "joinEntries (map ?txt entries)"
  let ?dec = "\<lambda>cookie. cookieObj (trim (hd (str_split CHR ''='' cookie))) ''string''
                 (JStr (trim (substring cookie (indexOf CHR ''='' cookie + 1))))"
  let ?dec' = "\<lambda>cookie. JObj [(''id'', JStr (trim (hd (str_split CHR ''='' cookie)))),
                 (''value'', JStr (trim (substring cookie (indexOf CHR ''='' cookie + 1))))]"
  have t1: "map entryText (map ?mk entries) = map ?txt entries" by (auto simp: comp_def)
  have t2: "map entryText (map ?mk' entries) = map ?txt entries" by (auto simp: comp_def)
  have e1: "\<forall>item \<in> set (map ?mk entries). isScalarShaped item = Inr True" by auto
  have e2: "\<forall>item \<in> set (map ?mk' entries). isScalarShaped item = Inr True" by auto
  from False have n1: "map ?mk entries \<noteq> []" and n2: "map ?mk' entries \<noteq> []" by simp_all
  have blank: "trim (document_cookie e) = []" by (simp add: empty trim_def)
  have s1: "snd (storeArray (JArr (map ?mk entries)) e) = setCookie ?packed e"
    unfolding storeArray_accepted[OF n1 e1, of e] t1 using blank by simp
  have s2: "snd (StorageW_storeAll (JArr (map ?mk' entries)) e) = setCookie ?packed e"
    unfolding storeAll_accepted[OF n2 e2, of e] t2 using blank empty by simp
  have nosemi: "\<forall>u \<in> set (map ?txt entries). CHR '';'' \<notin> set u"
    using wf by (auto simp: wellFormed_def)
  from False have "map ?txt entries \<noteq> []" by simp
  from str_split_joinEntries[OF this nosemi]
  have segs: "str_split CHR '';'' ?packed = map ?txt entries" .
  have nb: "trim ?packed \<noteq> []" using joinEntries_nonblank[OF n1] unfolding t1 .
  have d1: "map ?dec (map ?txt entries) = map ?mk entries"
    using wf by (auto simp: wellFormed_def decode_id decode_value)
  have d2: "map ?dec' (map ?txt entries) = map ?mk' entries"
    using wf by (auto simp: wellFormed_def decode_id decode_value)
  have "fst (all (setCookie ?packed e)) = map ?dec (str_split CHR '';'' ?packed)"
    using en nb by (simp add: all_def setCookie_def Let_def)
  then have a1: "fst (all (setCookie ?packed e)) = map ?mk entries"
    unfolding segs d1 .
  have "fst (StorageW_all (setCookie ?packed e)) = map ?dec' (str_split CHR '';'' ?packed)"
    using en nb by (simp add: StorageW_all_def setCookie_def Let_def)
  then have a2: "fst (StorageW_all (setCookie ?packed e)) = map ?mk' entries"
    unfolding segs d2 .
  show ?thesis unfolding s1 s2 a1 a2 by simp
qed

text \<open>The theorem at the entries \<open>a=1\<close> and \<open>b=2\<close>, written to the empty store.\<close>

theorem roundtrip_trimmed_witness:
  "navigator_cookieEnabled (storeWith []) \<and> document_cookie (storeWith []) = [] \<and>
   wellFormed (''a'', ''1'') \<and> wellFormed (''b'', ''2'') \<and>
   fst (all (snd (storeArray
      (JArr [cookieObj ''a'' ''string'' (JStr ''1''), cookieObj ''b'' ''string'' (JStr ''2'')])
      (storeWith []))))
     = [cookieObj ''a'' ''string'' (JStr ''1''), cookieObj ''b'' ''string'' (JStr ''2'')] \<and>
   fst (StorageW_all (snd (StorageW_storeAll
      (JArr [JObj [(''id'', JStr ''a''), (''value'', JStr ''1'')],
             JObj [(''id'', JStr ''b''), (''value'', JStr ''2'')]])
      (storeWith []))))
     = [JObj [(''id'', JStr ''a''), (''value'', JStr ''1'')],
        JObj [(''id'', JStr ''b''), (''value'', JStr ''2'')]]"
proof -
  have h1: "navigator_cookieEnabled (storeWith [])" by (simp add: storeWith_def)
  have h2: "document_cookie (storeWith []) = []" by (simp add: storeWith_def)
  have h3: "\<forall>p \<in> set [(''a'', ''1''), (''b'', ''2'')]. wellFormed p"
    by (simp add: wellFormed_def trim_def isWhiteSpace_def)
  from roundtrip_trimmed[OF h1 h2 h3] h1 h2 h3 show ?thesis by simp
qed

text \<open>
  The claim as written fails on an id that starts with a space: the id \<open>'' a''\<close> holds
  neither \<open>;\<close> nor \<open>=\<close>, and it is decoded as \<open>''a''\<close>.
\<close>

theorem roundtrip_counterexample:
  "CHR '';'' \<notin> set '' a'' \<and> CHR ''='' \<notin> set '' a'' \<and>
   CHR '';'' \<notin> set ''b'' \<and> CHR ''='' \<notin> set ''b'' \<and>
   fst (all (snd (storeArray (JArr [cookieObj '' a'' ''string'' (JStr ''b'')]) (storeWith []))))
     = [cookieObj ''a'' ''string'' (JStr ''b'')] \<and>
   fst (all (snd (storeArray (JArr [cookieObj '' a'' ''string'' (JStr ''b'')]) (storeWith []))))
     \<noteq> [cookieObj '' a'' ''string'' (JStr ''b'')] \<and>
   fst (StorageW_all (snd (StorageW_storeAll
      (JArr [JObj [(''id'', JStr '' a''), (''value'', JStr ''b'')]]) (storeWith []))))
     \<noteq> [JObj [(''id'', JStr '' a''), (''value'', JStr ''b'')]]"
  by (simp add: storeWith_def cookieObj_def isScalarShaped_def andE_def bindE_def
      addedCookie_def setCookie_def all_def StorageW_all_def trim_def isWhiteSpace_def
      substring_def Let_def storeAll_result_def)

section \<open>All or nothing in a batch (C2)\<close>




section \<open>Integer queries at the boundaries (C3)\<close>

text \<open>
  Claim C3, as the code has it, for the sequence of length \<open>N\<close> that \<open>all\<close> decodes:
  \<open>first\<close> resolves the queries \<open>N\<close>, \<open>-(N+1)\<close> and \<open>-N\<close> to \<open>null\<close>; it resolves
  the query 0 to the first entry when \<open>N \<ge> 1\<close>; and it resolves a negative query \<open>i\<close>
  with \<open>-N < i < 0\<close> to the entry at position \<open>N + i\<close>.  The same holds for \<open>first\<close>
  of StorageW.js.
\<close>

theorem first_index_boundary:
  "(let cookies = fst (all e); N = int (length cookies) in
      fst (first (QInt N) e) = Inr JNull \<and>
      fst (first (QInt (- (N + 1))) e) = Inr JNull \<and>
      fst (first (QInt (- N)) e) = Inr JNull \<and>
      (N \<ge> 1 \<longrightarrow> fst (first (QInt 0) e) = Inr (hd cookies)) \<and>
      (\<forall>i. - N < i \<and> i < 0 \<longrightarrow> fst (first (QInt i) e) = Inr (cookies ! nat (N + i))))
   \<and> (let cookies = fst (StorageW_all e); N = int (length cookies) in
      fst (StorageW_first (QInt N) e) = Inr JNull \<and>
      fst (StorageW_first (QInt (- (N + 1))) e) = Inr JNull \<and>
      fst (StorageW_first (QInt (- N)) e) = Inr JNull \<and>
      (N \<ge> 1 \<longrightarrow> fst (StorageW_first (QInt 0) e) = Inr (hd cookies)) \<and>
      (\<forall>i. - N < i \<and> i < 0 \<longrightarrow>
           fst (StorageW_first (QInt i) e) = Inr (cookies ! nat (N + i))))"
  unfolding Let_def fst_first fst_StorageW_first
  by (auto simp: firstOf_boundary simp del: firstOf.simps)

text \<open>The theorem at the store \<open>a=1;b=2\<close>, where \<open>N = 2\<close>.\<close>

theorem first_index_boundary_witness:
  "fst (all (storeWith ''a=1;b=2''))
     = [cookieObj ''a'' ''string'' (JStr ''1''), cookieObj ''b'' ''string'' (JStr ''2'')] \<and>
   fst (first (QInt 2) (storeWith ''a=1;b=2'')) = Inr JNull \<and>
   fst (first (QInt (- 3)) (storeWith ''a=1;b=2'')) = Inr JNull \<and>
   fst (first (QInt (- 2)) (storeWith ''a=1;b=2'')) = Inr JNull \<and>
   fst (first (QInt 0) (storeWith ''a=1;b=2'')) = Inr (cookieObj ''a'' ''string'' (JStr ''1'')) \<and>
   fst (first (QInt (- 1)) (storeWith ''a=1;b=2'')) = Inr (cookieObj ''b'' ''string'' (JStr ''2''))"
proof -
  have d: "fst (all (storeWith ''a=1;b=2''))
     = [cookieObj ''a'' ''string'' (JStr ''1''), cookieObj ''b'' ''string'' (JStr ''2'')]"
    by (simp add: storeWith_def all_def trim_def isWhiteSpace_def substring_def Let_def)
  from first_index_boundary[of "storeWith ''a=1;b=2''"] d
  have "fst (first (QInt 2) (storeWith ''a=1;b=2'')) = Inr JNull"
    and "fst (first (QInt (- 3)) (storeWith ''a=1;b=2'')) = Inr JNull"
    and "fst (first (QInt (- 2)) (storeWith ''a=1;b=2'')) = Inr JNull"
    and "fst (first (QInt 0) (storeWith ''a=1;b=2'')) = Inr (cookieObj ''a'' ''string'' (JStr ''1''))"
    and "\<forall>i. - 2 < i \<and> i < 0 \<longrightarrow> fst (first (QInt i) (storeWith ''a=1;b=2''))
           = Inr ([cookieObj ''a'' ''string'' (JStr ''1''), cookieObj ''b'' ''string'' (JStr ''2'')]
                    ! nat (2 + i))"
    by (simp_all add: Let_def)
  moreover from this(5) have
    "fst (first (QInt (- 1)) (storeWith ''a=1;b=2'')) = Inr (cookieObj ''b'' ''string'' (JStr ''2''))"
    by simp
  ultimately show ?thesis using d by simp
qed

text \<open>
  The claim as written fails at \<open>N = 1\<close>: the store \<open>a=1\<close> decodes to one entry, the
  query 0 resolves to it and the query \<open>-1 = -N\<close> resolves to \<open>null\<close>.
\<close>

theorem first_minus_length_counterexample:
  "fst (all (storeWith ''a=1'')) = [cookieObj ''a'' ''string'' (JStr ''1'')] \<and>
   fst (first (QInt 0) (storeWith ''a=1'')) = Inr (cookieObj ''a'' ''string'' (JStr ''1'')) \<and>
   fst (first (QInt (- 1)) (storeWith ''a=1'')) = Inr JNull \<and>
   fst (StorageW_first (QInt 0) (storeWith ''a=1''))
     = Inr (JObj [(''id'', JStr ''a''), (''value'', JStr ''1'')]) \<and>
   fst (StorageW_first (QInt (- 1)) (storeWith ''a=1'')) = Inr JNull"
  by (simp add: storeWith_def first_def StorageW_first_def all_def StorageW_all_def trim_def
      isWhiteSpace_def substring_def Let_def)

section \<open>Queries on a supplied sequence (C4)\<close>

text \<open>
  Whatever they are given, \<open>firstIn\<close> and \<open>findIn\<close> return \<open>null\<close> or throw: the
  callback of their shape test returns \<open>undefined\<close> on every element.
\<close>

lemma firstIn_no_entry:
  "firstIn cookies query = Inr JNull \<or> firstIn cookies query = Inl TypeError"
proof (cases cookies)
  case (JArr xs)
  show ?thesis
  proof (cases xs)
    case Nil
    with JArr show ?thesis by (simp add: andE_def)
  next
    case (Cons x ys)
    have "everyCallback x = Inr False \<or> everyCallback x = Inl TypeError"
      by (cases x)
         (auto simp: everyCallback_def isEntryShaped_def andE_def bindE_def split: sum.splits)
    with JArr Cons show ?thesis by (auto simp: andE_def)
  qed
qed simp_all

lemma findIn_no_entry:
  "findIn cookies query = Inr JNull \<or> findIn cookies query = Inl TypeError"
proof (cases cookies)
  case (JArr xs)
  show ?thesis
  proof (cases xs)
    case Nil
    with JArr show ?thesis by (simp add: andE_def)
  next
    case (Cons x ys)
    have "everyCallback x = Inr False \<or> everyCallback x = Inl TypeError"
      by (cases x)
         (auto simp: everyCallback_def isEntryShaped_def andE_def bindE_def split: sum.splits)
    with JArr Cons show ?thesis by (auto simp: andE_def)
  qed
qed simp_all

text \<open>
  Claim C4 says that \<open>firstIn\<close> and \<open>findIn\<close> resolve a query on a supplied sequence as
  \<open>first\<close> and \<open>find\<close> resolve it on the decoded one.  On the one-entry sequence that
  the store \<open>a=1\<close> decodes to, and the query \<open>''a''\<close>, \<open>first\<close> and \<open>find\<close> return the
  entry, while \<open>firstIn\<close> and \<open>findIn\<close> return \<open>null\<close>.
\<close>

theorem firstIn_findIn_return_null:
  "fst (all (storeWith ''a=1'')) = [cookieObj ''a'' ''string'' (JStr ''1'')] \<and>
   fst (first (QStr ''a'') (storeWith ''a=1'')) = Inr (cookieObj ''a'' ''string'' (JStr ''1'')) \<and>
   firstIn (JArr [cookieObj ''a'' ''string'' (JStr ''1'')]) (QStr ''a'') = Inr JNull \<and>
   fst (find_cookies (QStr ''a'') (storeWith ''a=1''))
     = Inr (JArr [cookieObj ''a'' ''string'' (JStr ''1'')]) \<and>
   findIn (JArr [cookieObj ''a'' ''string'' (JStr ''1'')]) (QStr ''a'') = Inr JNull"
  by (simp add: storeWith_def first_def find_cookies_def all_def trim_def isWhiteSpace_def
      substring_def Let_def cookieObj_def andE_def bindE_def everyCallback_def isEntryShaped_def)

section \<open>The JSON pass (C5)\<close>

text \<open>
  Claim C5 says that under \<open>'all'\<close> an entry whose value parses as JSON becomes a Json
  entry holding the parsed value.  For every parser, \<open>unravel('all')\<close> on the store
  \<open>a=5\<close> returns the entry as \<open>all\<close> decoded it, a Scalar with the string \<open>5\<close>.
\<close>

theorem unravel_all_keeps_scalar:
  "unravel JSON_parse (JStr ''all'') (storeWith ''a=5'')
     = (Inr (JArr [cookieObj ''a'' ''string'' (JStr ''5'')]), storeWith ''a=5'')"
  by (simp add: unravel_def map_jsonPass storeWith_def all_def trim_def isWhiteSpace_def
      substring_def Let_def containerPass_def cookieObj_def bindE_def)

text \<open>
  In StorageW.js the pass does replace the value, in an entry that has no \<open>type\<close>.
\<close>

lemma StorageW_unravel_parses:
  "JSON_parse (JStr ''5'') = Inr (JNum 5) \<Longrightarrow>
   fst (StorageW_unravel JSON_parse (storeWith ''a=5''))
     = [JObj [(''id'', JStr ''a''), (''value'', JNum 5)]]"
  by (simp add: StorageW_unravel_def StorageW_jsonPass_def StorageW_all_def storeWith_def
      trim_def isWhiteSpace_def substring_def Let_def bindE_def)

section \<open>The container pass (C6)\<close>

text \<open>
  Claim C6, as the code has it.  In the container pass an entry that holds the string
  \<open>s\<close> becomes a container exactly when \<open>s\<close> contains an \<open>&\<close> and each of its
  \<open>&\<close>-delimited segments contains exactly one \<open>=\<close>.  The container keeps the id, has
  the type \<open>container\<close>, and its value is the sequence, in order, of one Scalar
  sub-entry per segment: the id is the text before the first \<open>=\<close>, the value is the text
  after it with the white space at both ends removed.  Any other entry is returned as
  it is.
\<close>

theorem containerPass_string:
  "containerPass (cookieObj i t (JStr s)) =
     Inr (if qualifiesAsContainer s
          then cookieObj i ''container''
                 (JArr (map (\<lambda>seg. cookieObj (fst (splitFirst seg)) ''string''
                                     (JStr (trim (snd (splitFirst seg)))))
                          (str_split CHR ''&'' s)))
          else cookieObj i t (JStr s))"
proof (cases "qualifiesAsContainer s")
  case True
  have "containerPass (cookieObj i t (JStr s))
      = Inr (cookieObj i ''container'' (JArr (map subCookie (str_split CHR ''&'' s))))"
    using True container_test[of s] by (simp add: containerPass_def cookieObj_def bindE_def)
  with True show ?thesis by (simp only: map_subCookie[OF True] if_True)
next
  case False
  then show ?thesis
    using container_test[of s] by (simp add: containerPass_def cookieObj_def bindE_def)
qed

text \<open>The theorem at the values \<open>x=1&y=2\<close>, a container, and \<open>x=1\<close>, which stays Scalar.\<close>

theorem containerPass_string_witness:
  "qualifiesAsContainer ''x=1&y=2'' \<and> \<not> qualifiesAsContainer ''x=1'' \<and>
   containerPass (cookieObj ''a'' ''string'' (JStr ''x=1&y=2''))
     = Inr (cookieObj ''a'' ''container''
             (JArr [cookieObj ''x'' ''string'' (JStr ''1''),
                    cookieObj ''y'' ''string'' (JStr ''2'')])) \<and>
   containerPass (cookieObj ''a'' ''string'' (JStr ''x=1''))
     = Inr (cookieObj ''a'' ''string'' (JStr ''x=1''))"
  using containerPass_string[of "''a''" "''string''" "''x=1&y=2''"]
        containerPass_string[of "''a''" "''string''" "''x=1''"]
  by (simp add: qualifiesAsContainer_def splitFirst_def trim_def isWhiteSpace_def)

text \<open>
  The claim as written fails on the value \<open>x= 1&y=2\<close>: it qualifies, splitting the
  first segment on its \<open>=\<close> gives the value \<open>'' 1''\<close>, and the sub-entry holds \<open>''1''\<close>.
\<close>

theorem containerPass_counterexample:
  "qualifiesAsContainer ''x= 1&y=2'' \<and>
   containerPass (cookieObj ''a'' ''string'' (JStr ''x= 1&y=2''))
     = Inr (cookieObj ''a'' ''container''
             (JArr [cookieObj ''x'' ''string'' (JStr ''1''),
                    cookieObj ''y'' ''string'' (JStr ''2'')])) \<and>
   map (\<lambda>seg. cookieObj (fst (splitFirst seg)) ''string'' (JStr (snd (splitFirst seg))))
       (str_split CHR ''&'' ''x= 1&y=2'')
     = [cookieObj ''x'' ''string'' (JStr '' 1''), cookieObj ''y'' ''string'' (JStr ''2'')]"
  by (simp add: qualifiesAsContainer_def splitFirst_def containerPass_def cookieObj_def bindE_def
        subCookie_def substring_def trim_def isWhiteSpace_def)

section \<open>The modes of \<open>unravel\<close> (C7)\<close>

text \<open>
  Claim C7 says that under \<open>'none'\<close> no pass runs and the decoded sequence is returned
  unchanged.  On the store \<open>a=x=1&y=2\<close>, \<open>all\<close> decodes one Scalar entry, and
  \<open>unravel('none')\<close> returns it as a container, for every parser.
\<close>

theorem unravel_none_runs_container_pass:
  "fst (all (storeWith ''a=x=1&y=2'')) = [cookieObj ''a'' ''string'' (JStr ''x=1&y=2'')] \<and>
   fst (unravel JSON_parse (JStr ''none'') (storeWith ''a=x=1&y=2''))
     = Inr (JArr [cookieObj ''a'' ''container''
          (JArr [cookieObj ''x'' ''string'' (JStr ''1''),
                 cookieObj ''y'' ''string'' (JStr ''2'')])])"
  by (simp add: unravel_def map_jsonPass storeWith_def all_def trim_def isWhiteSpace_def
      substring_def Let_def containerPass_def cookieObj_def bindE_def subCookie_def)

text \<open>
  The mode that skips both passes is \<open>'string'\<close>.  Under \<open>'json'\<close> the container pass
  is skipped, and under \<open>'all'\<close>, \<open>'container'\<close> and \<open>'none'\<close> the container pass
  runs on the decoded entries; the JSON pass changes no entry in any mode.  Whatever the
  mode, the result has one entry per decoded entry.
\<close>

lemma unravel_string_mode:
  "unravel JSON_parse (JStr ''string'') e = (Inr (JArr (fst (all e))), snd (all e))"
  by (simp add: unravel_def Let_def split: prod.splits)

lemma unravel_json_mode:
  "unravel JSON_parse (JStr ''json'') e = (Inr (JArr (fst (all e))), snd (all e))"
  by (simp add: unravel_def Let_def map_jsonPass split: prod.splits)

lemma unravel_container_modes:
  "m = ''all'' \<or> m = ''container'' \<or> m = ''none'' \<Longrightarrow>
   unravel JSON_parse (JStr m) e
     = (bindE (mapE containerPass (fst (all e))) (\<lambda>cs. Inr (JArr cs)), snd (all e))"
  by (auto simp: unravel_def Let_def map_jsonPass split: prod.splits)

lemma mapE_length: "mapE f xs = Inr ys \<Longrightarrow> length ys = length xs"
  by (induction xs arbitrary: ys) (auto simp: bindE_def split: sum.splits)

lemma unravel_preserves_count:
  "fst (unravel JSON_parse (JStr m) e) = Inr (JArr cs) \<Longrightarrow> length cs = length (fst (all e))"
  by (auto simp: unravel_def Let_def map_jsonPass bindE_def mapE_length
           split: prod.splits if_splits sum.splits)

section \<open>Storing a container (C8)\<close>

text \<open>
  Claim C8 says that \<open>storeAsContainer\<close> appends the packed entry as \<open>store\<close> does, after
  a \<open>;\<close> when the store is not empty.  On the store \<open>a=1\<close>, \<open>storeAsContainer\<close> of the
  entry \<open>c\<close> with the sub-entries \<open>x=1\<close> and \<open>y=2\<close> writes \<open>a=1c=x=1&y=2\<close>, while
  \<open>store\<close> of the same packed text writes \<open>a=1;c=x=1&y=2\<close>.
\<close>

theorem storeAsContainer_no_separator:
  "storeAsContainer (JObj [(''id'', JStr ''c''), (''value'',
       JArr [JObj [(''id'', JStr ''x''), (''value'', JStr ''1'')],
             JObj [(''id'', JStr ''y''), (''value'', JStr ''2'')]])]) (storeWith ''a=1'')
     = (Inr True, (storeWith ''a=1'')\<lparr>document_cookie := ''a=1c=x=1&y=2'',
                                         writes := [''a=1c=x=1&y=2'']\<rparr>)
   \<and> store (JObj [(''id'', JStr ''c''), (''value'', JStr ''x=1&y=2'')]) (storeWith ''a=1'')
     = (Inr True, (storeWith ''a=1'')\<lparr>document_cookie := ''a=1;c=x=1&y=2'',
                                         writes := [''a=1;c=x=1&y=2'']\<rparr>)"
  by (simp add: storeAsContainer_def isContainerShaped_def isScalarShaped_def andE_def bindE_def
       addedCookie_def storeWith_def setCookie_def trim_def isWhiteSpace_def store_def Let_def)

section \<open>The snapshot of \<open>storeArrayAsJSON\<close> (C9)\<close>

text \<open>
  Claim C9.  For every batch that the shape test of \<open>storeArrayAsJSON\<close> accepts, and
  every \<open>JSON.stringify\<close>, the call returns, its last write to the store is the content
  read before the loop, and the content of the store after the call is its content
  before the call.
\<close>

theorem storeArrayAsJSON_restores:
  assumes "andE (Inr (length items > 0)) (everyE isJsonItemShaped items) = Inr True"
  shows "(\<exists>returned. fst (storeArrayAsJSON stringify (JArr items) e) = Inr returned) \<and>
         document_cookie (snd (storeArrayAsJSON stringify (JArr items) e)) = document_cookie e \<and>
         writes (snd (storeArrayAsJSON stringify (JArr items) e)) \<noteq> [] \<and>
         last (writes (snd (storeArrayAsJSON stringify (JArr items) e))) = document_cookie e"
proof -
  from assms have sh: "\<forall>item \<in> set items. isJsonItemShaped item = Inr True"
    by (auto simp: andE_def everyE_True split: if_splits)
  from storeArrayAsJSON_forEach_returns[OF sh, of stringify 0 0 e]
  obtain n e1 where loop: "storeArrayAsJSON_forEach stringify items 0 0 e = (Inr n, e1)" by blast
  show ?thesis using assms
    by (auto simp: loop storeArrayAsJSON_result_def setCookie_def consoleError_def Let_def)
qed

text \<open>
  The theorem at the one-item batch \<open>{id: 'n', value: null}\<close>, which \<open>JSON.stringify\<close>
  turns into \<open>null\<close>, against the store \<open>a=1\<close>: \<open>store\<close> writes \<open>a=1;n=null\<close>, and the
  snapshot \<open>a=1\<close> is written over it.
\<close>

theorem storeArrayAsJSON_restores_witness:
  "andE (Inr (length [JObj [(''id'', JStr ''n''), (''value'', JNull)]] > 0))
        (everyE isJsonItemShaped [JObj [(''id'', JStr ''n''), (''value'', JNull)]]) = Inr True \<and>
   storeArrayAsJSON (\<lambda>v. Inr (JStr ''null''))
       (JArr [JObj [(''id'', JStr ''n''), (''value'', JNull)]]) (storeWith ''a=1'')
     = (Inr True, (storeWith ''a=1'')\<lparr>writes := [''a=1;n=null'', ''a=1'']\<rparr>) \<and>
   document_cookie (snd (storeArrayAsJSON (\<lambda>v. Inr (JStr ''null''))
       (JArr [JObj [(''id'', JStr ''n''), (''value'', JNull)]]) (storeWith ''a=1''))) = ''a=1''"
proof -
  have h: "andE (Inr (length [JObj [(''id'', JStr ''n''), (''value'', JNull)]] > 0))
        (everyE isJsonItemShaped [JObj [(''id'', JStr ''n''), (''value'', JNull)]]) = Inr True"
    by (simp add: andE_def bindE_def isJsonItemShaped_def)
  have r: "storeArrayAsJSON (\<lambda>v. Inr (JStr ''null''))
       (JArr [JObj [(''id'', JStr ''n''), (''value'', JNull)]]) (storeWith ''a=1'')
     = (Inr True, (storeWith ''a=1'')\<lparr>writes := [''a=1;n=null'', ''a=1'']\<rparr>)"
    by (simp add: andE_def bindE_def isJsonItemShaped_def store_def isScalarShaped_def
        addedCookie_def storeWith_def setCookie_def trim_def isWhiteSpace_def Let_def
        storeArrayAsJSON_result_def stringifyOrRaw_def)
  from storeArrayAsJSON_restores[OF h, of "\<lambda>v. Inr (JStr ''null'')" "storeWith ''a=1''"]
  have "document_cookie (snd (storeArrayAsJSON (\<lambda>v. Inr (JStr ''null''))
       (JArr [JObj [(''id'', JStr ''n''), (''value'', JNull)]]) (storeWith ''a=1'')))
        = document_cookie (storeWith ''a=1'')" by blast
  then show ?thesis using h r by (simp add: storeWith_def)
qed

section \<open>Segments without \<open>=\<close> (C10)\<close>

text \<open>
  Claim C10, as the code has it.  When the store is enabled and its content is not blank,
  \<open>all\<close> splits the content and emits one entry per \<open>;\<close>-separated segment, in order.
  For every segment that contains no \<open>=\<close>, the entry emitted for it is the Scalar whose
  id and whose value are both the whole segment with the white space at both ends
  removed: the value repeats the id, and it is the empty string exactly when the segment
  is blank.  The same holds for \<open>all\<close> of StorageW.js, whose entries carry no type.
\<close>

theorem all_segment_without_equals:
  assumes en: "navigator_cookieEnabled e" and nb: "trim (document_cookie e) \<noteq> []"
    and k: "k < length (str_split CHR '';'' (document_cookie e))"
    and noeq: "CHR ''='' \<notin> set (str_split CHR '';'' (document_cookie e) ! k)"
  shows "(let seg = str_split CHR '';'' (document_cookie e) ! k in
          length (fst (all e)) = length (str_split CHR '';'' (document_cookie e)) \<and>
          fst (all e) ! k
            = JObj [(''id'', JStr (trim seg)), (''type'', JStr ''string''),
                    (''value'', JStr (trim seg))] \<and>
          length (fst (StorageW_all e)) = length (str_split CHR '';'' (document_cookie e)) \<and>
          fst (StorageW_all e) ! k
            = JObj [(''id'', JStr (trim seg)), (''value'', JStr (trim seg))] \<and>
          (trim seg = [] \<longleftrightarrow> (\<forall>c \<in> set seg. isWhiteSpace c)))"
  unfolding Let_def all_segments[OF en nb] StorageW_all_segments[OF en nb]
  using k noeq by (simp add: str_split_no_sep substring_no trim_blank cookieObj_def)

text \<open>The theorem at the store \<open>a=1; c\<close> and its second segment.\<close>

theorem all_segment_without_equals_witness:
  "navigator_cookieEnabled (storeWith ''a=1; c'') \<and>
   trim (document_cookie (storeWith ''a=1; c'')) \<noteq> [] \<and>
   str_split CHR '';'' (document_cookie (storeWith ''a=1; c'')) = [''a=1'', '' c''] \<and>
   fst (all (storeWith ''a=1; c'')) ! 1
     = JObj [(''id'', JStr ''c''), (''type'', JStr ''string''), (''value'', JStr ''c'')] \<and>
   fst (StorageW_all (storeWith ''a=1; c'')) ! 1
     = JObj [(''id'', JStr ''c''), (''value'', JStr ''c'')]"
proof -
  have h1: "navigator_cookieEnabled (storeWith ''a=1; c'')" by (simp add: storeWith_def)
  have h2: "trim (document_cookie (storeWith ''a=1; c'')) \<noteq> []"
    by (simp add: storeWith_def trim_def isWhiteSpace_def)
  have s: "str_split CHR '';'' (document_cookie (storeWith ''a=1; c'')) = [''a=1'', '' c'']"
    by (simp add: storeWith_def)
  have h3: "1 < length (str_split CHR '';'' (document_cookie (storeWith ''a=1; c'')))"
    by (simp add: s)
  have h4: "CHR ''='' \<notin> set (str_split CHR '';'' (document_cookie (storeWith ''a=1; c'')) ! 1)"
    by (simp add: s)
  from all_segment_without_equals[OF h1 h2 h3 h4] h1 h2 s show ?thesis
    by (simp add: Let_def trim_def isWhiteSpace_def)
qed

text \<open>
  The claim as written fails in two ways.  The store \<open>a=1;\<close> ends in an empty segment,
  which holds no \<open>=\<close>, and the entry emitted for it has the empty string as its id and
  as its value.  The store that holds one space has one segment, which holds no \<open>=\<close>,
  and \<open>all\<close> emits no entry for it.
\<close>

theorem all_blank_segment_counterexample:
  "str_split CHR '';'' ''a=1;'' = [''a=1'', []] \<and>
   CHR ''='' \<notin> set (str_split CHR '';'' ''a=1;'' ! 1) \<and>
   fst (all (storeWith ''a=1;''))
     = [JObj [(''id'', JStr ''a''), (''type'', JStr ''string''), (''value'', JStr ''1'')],
        JObj [(''id'', JStr []), (''type'', JStr ''string''), (''value'', JStr [])]] \<and>
   fst (StorageW_all (storeWith ''a=1;''))
     = [JObj [(''id'', JStr ''a''), (''value'', JStr ''1'')],
        JObj [(''id'', JStr []), (''value'', JStr [])]] \<and>
   str_split CHR '';'' '' '' = ['' ''] \<and>
   CHR ''='' \<notin> set (str_split CHR '';'' '' '' ! 0) \<and>
   fst (all (storeWith '' '')) = [] \<and>
   fst (StorageW_all (storeWith '' '')) = []"
  by (simp add: storeWith_def all_def StorageW_all_def trim_def isWhiteSpace_def substring_def
      Let_def cookieObj_def)

end
